theory Spec2Isabelle
  imports Main
begin

section \<open>Python values: errors, integer arithmetic, list indexing\<close>

text \<open>
  The program is \<^verbatim>\<open>src/dataloader.py\<close>. Every exception it can raise is a value of
  \<open>py_error\<close>; a function that may raise returns \<open>py_error + 'a\<close>, \<open>Inl\<close> being the
  exception. Python integers are unbounded, so they are \<open>int\<close>; \<open>//\<close> is floor division,
  which is \<open>div\<close> on \<open>int\<close>, and raises on a zero divisor.
\<close>

datatype py_error =
  KeyError | IndexError | ValueError | ZeroDivisionError | OverflowError | RuntimeError

definition py_floordiv :: "int \<Rightarrow> int \<Rightarrow> py_error + int" where
  "py_floordiv a b = (if b = 0 then Inl ZeroDivisionError else Inr (a div b))"

text \<open>
  \<^verbatim>\<open>int(x / s)\<close>: true division followed by truncation toward zero. On integers whose
  quotient is exactly representable (all image dimensions are) this is the truncated
  quotient of the two integers.
\<close>

definition py_int_truediv :: "int \<Rightarrow> int \<Rightarrow> py_error + int" where
  "py_int_truediv x s =
     (if s = 0 then Inl ZeroDivisionError
      else Inr (sgn x * sgn s * (\<bar>x\<bar> div \<bar>s\<bar>)))"

text \<open>\<^verbatim>\<open>range(n)\<close> is \<open>0, 1, ..., n - 1\<close>, empty when \<open>n \<le> 0\<close>.\<close>

definition py_range :: "int \<Rightarrow> int list" where
  "py_range n = [0..n - 1]"

text \<open>
  \<^verbatim>\<open>xs[index]\<close> on a Python list: a negative index counts from the end, and an index
  outside \<open>[-len, len)\<close> raises IndexError.
\<close>

definition list_getitem :: "'a list \<Rightarrow> int \<Rightarrow> py_error + 'a" where
  "list_getitem xs index =
     (let n = int (length xs);
          k = (if index < 0 then index + n else index)
      in if 0 \<le> k \<and> k < n then Inr (xs ! nat k) else Inl IndexError)"

text \<open>
  The random source is explicit. \<^verbatim>\<open>random.sample(population, k)\<close> raises ValueError
  unless \<open>0 \<le> k \<le> len(population)\<close> and otherwise returns \<open>k\<close> elements taken from \<open>k\<close>
  different positions; \<open>rng\<close> is the stream of draws, each draw picking one of the
  positions not taken yet.
\<close>

fun sample_draw :: "(nat \<Rightarrow> nat) \<Rightarrow> nat \<Rightarrow> 'a list \<Rightarrow> nat \<Rightarrow> 'a list" where
  "sample_draw rng n xs 0 = []"
| "sample_draw rng n xs (Suc k) =
     (if xs = [] then []
      else let i = rng n mod length xs
           in xs ! i # sample_draw rng (Suc n) (take i xs @ drop (Suc i) xs) k)"

definition random_sample :: "(nat \<Rightarrow> nat) \<Rightarrow> 'a list \<Rightarrow> int \<Rightarrow> py_error + 'a list" where
  "random_sample rng population k =
     (if k < 0 \<or> int (length population) < k then Inl ValueError
      else Inr (sample_draw rng 0 population (nat k)))"

text \<open>\<^verbatim>\<open>random.choice(seq)\<close> on a non-empty sequence, the draw being \<open>r\<close>.\<close>

definition random_choice :: "nat \<Rightarrow> 'a list \<Rightarrow> 'a" where
  "random_choice r seq = seq ! (r mod length seq)"

text \<open>
  \<^verbatim>\<open>round(random.uniform(a, b))\<close> for integers \<open>a \<le> b\<close>: an integer between \<open>a\<close> and \<open>b\<close>.
\<close>

definition round_uniform :: "nat \<Rightarrow> int \<Rightarrow> int \<Rightarrow> int" where
  "round_uniform r a b = a + int (r mod nat (b - a + 1))"

section \<open>Images\<close>

text \<open>
  A PIL image is modelled by what the program reads of it: its size (width, height), its
  mode, and the operations that produced it from the decoded file. A box is the 4-tuple
  that \<^verbatim>\<open>Image.crop\<close> takes: (left, upper, right, lower).
\<close>

type_synonym box = "int \<times> int \<times> int \<times> int"

datatype mode = Mode_RGB | Mode_YCbCr | Mode_L

datatype resample = NEAREST | BILINEAR | BICUBIC | LANCZOS

datatype img_op =
    Crop box
  | Resize "int \<times> int" resample
  | Jpeg int
  | Convert mode
  | Band nat

record img =
  img_size :: "int \<times> int"
  img_mode :: mode
  img_history :: "img_op list"

fun channels :: "mode \<Rightarrow> nat" where
  "channels Mode_RGB = 3"
| "channels Mode_YCbCr = 3"
| "channels Mode_L = 1"

text \<open>
  The imaging library is not part of the program. Its operations are modelled by their
  documented effect on size and mode: \<^verbatim>\<open>crop\<close> gives an image of the box's width and
  height and rejects a box whose right or lower edge lies before its left or upper edge;
  \<^verbatim>\<open>resize\<close> gives an image of the requested size; it reads the two numbers of the
  request as C integers, so one outside \<open>[-2^31, 2^31)\<close> is an OverflowError, and it
  rejects a request with a side below one pixel with ValueError, a zero-sized request
  included; \<^verbatim>\<open>convert\<close> sets the mode; \<^verbatim>\<open>split\<close> gives one single-channel image
  per band of the mode; an image with a side below one pixel cannot be saved as JPEG.
\<close>

definition c_int :: "int \<Rightarrow> bool" where
  "c_int x = (- (2 ^ 31) \<le> x \<and> x < 2 ^ 31)"

definition Image_crop :: "img \<Rightarrow> box \<Rightarrow> py_error + img" where
  "Image_crop im bx =
     (case bx of (left, upper, right, lower) \<Rightarrow>
        if right < left \<or> lower < upper then Inl ValueError
        else Inr (im\<lparr>img_size := (right - left, lower - upper),
                      img_history := img_history im @ [Crop bx]\<rparr>))"

definition Image_resize :: "img \<Rightarrow> int \<times> int \<Rightarrow> resample \<Rightarrow> py_error + img" where
  "Image_resize im sz flt =
     (if c_int (fst sz) \<and> c_int (snd sz) then
        (if fst sz < 1 \<or> snd sz < 1 then Inl ValueError
         else Inr (im\<lparr>img_size := sz, img_history := img_history im @ [Resize sz flt]\<rparr>))
      else Inl OverflowError)"

definition Image_convert :: "img \<Rightarrow> mode \<Rightarrow> img" where
  "Image_convert im m = im\<lparr>img_mode := m, img_history := img_history im @ [Convert m]\<rparr>"

definition Image_split :: "img \<Rightarrow> img list" where
  "Image_split im =
     map (\<lambda>k. im\<lparr>img_mode := Mode_L, img_history := img_history im @ [Band k]\<rparr>)
       [0..<channels (img_mode im)]"

text \<open>Saving as JPEG at a quality and opening the bytes again.\<close>

definition jpeg_roundtrip :: "img \<Rightarrow> int \<Rightarrow> py_error + img" where
  "jpeg_roundtrip im quality =
     (if fst (img_size im) < 1 \<or> snd (img_size im) < 1 then Inl ValueError
      else Inr (im\<lparr>img_history := img_history im @ [Jpeg quality]\<rparr>))"

section \<open>ImageData.get_img_grids\<close>

text \<open>
  The two nested \<^verbatim>\<open>for\<close> loops append to \<open>patch_box\<close>; each is a left fold over its
  range with the list built so far as the accumulator.
\<close>

definition grid_cell :: "int \<Rightarrow> int \<Rightarrow> int \<Rightarrow> box" where
  "grid_cell patch_size i j =
     (patch_size * i, patch_size * j, patch_size * (i + 1), patch_size * (j + 1))"

definition grid_row :: "int \<Rightarrow> int \<Rightarrow> int \<Rightarrow> int \<Rightarrow> int \<Rightarrow> box list \<Rightarrow> box list" where
  "grid_row patch_size img_w img_h count_w i patch_box =
     foldl (\<lambda>acc j.
              if patch_size * (j + 1) \<le> img_h \<and> patch_size * (i + 1) \<le> img_w
              then acc @ [grid_cell patch_size i j] else acc)
       patch_box (py_range count_w)"

definition grid_rows :: "int \<Rightarrow> int \<Rightarrow> int \<Rightarrow> int \<Rightarrow> int \<Rightarrow> box list" where
  "grid_rows patch_size img_w img_h count_w count_h =
     foldl (\<lambda>acc i. grid_row patch_size img_w img_h count_w i acc) [] (py_range count_h)"

definition get_img_grids :: "int \<Rightarrow> int \<Rightarrow> (nat \<Rightarrow> nat) \<Rightarrow> img \<Rightarrow> py_error + box list" where
  "get_img_grids patch_size max_path_per_img rng im =
     (case img_size im of (img_w, img_h) \<Rightarrow>
        (case py_floordiv img_w patch_size of Inl e \<Rightarrow> Inl e | Inr count_w \<Rightarrow>
          (case py_floordiv img_h patch_size of Inl e \<Rightarrow> Inl e | Inr count_h \<Rightarrow>
            (let patch_box = grid_rows patch_size img_w img_h count_w count_h
             in if int (length patch_box) > max_path_per_img
                then random_sample rng patch_box max_path_per_img
                else Inr patch_box))))"


section \<open>ImageAugment\<close>

record ImageAugment =
  noise_level :: "int \<times> int"
  shrink_size :: int
  down_sample_method :: "resample option"

definition ImageAugment_init ::
  "int \<Rightarrow> int \<Rightarrow> resample option \<Rightarrow> py_error + ImageAugment" where
  "ImageAugment_init shrink_sz noise_lvl method =
     (if noise_lvl = 0 then
        Inr \<lparr>noise_level = (0, 0), shrink_size = shrink_sz, down_sample_method = method\<rparr>
      else if noise_lvl = 1 then
        Inr \<lparr>noise_level = (5, 25), shrink_size = shrink_sz, down_sample_method = method\<rparr>
      else if noise_lvl = 2 then
        Inr \<lparr>noise_level = (25, 50), shrink_size = shrink_sz, down_sample_method = method\<rparr>
      else Inl KeyError)"

text \<open>
  \<open>shrink_target\<close> is the pair \<open>(img_w, img_h)\<close> that \<^verbatim>\<open>shrink_img\<close> computes and hands
  to \<^verbatim>\<open>resize\<close>, \<open>resample_method\<close> the filter it settles on before; \<open>r\<close> is the draw
  of \<^verbatim>\<open>random.choice\<close>.
\<close>

definition shrink_target :: "ImageAugment \<Rightarrow> img \<Rightarrow> py_error + int \<times> int" where
  "shrink_target self hr_img =
     (case py_int_truediv (fst (img_size hr_img)) (shrink_size self) of
        Inl e \<Rightarrow> Inl e
      | Inr img_w \<Rightarrow>
          (case py_int_truediv (snd (img_size hr_img)) (shrink_size self) of
             Inl e \<Rightarrow> Inl e
           | Inr img_h \<Rightarrow> Inr (img_w, img_h)))"

definition resample_method :: "ImageAugment \<Rightarrow> nat \<Rightarrow> resample" where
  "resample_method self r =
     (case down_sample_method self of
        None \<Rightarrow> random_choice r [BILINEAR, BICUBIC, LANCZOS]
      | Some m \<Rightarrow> m)"

definition shrink_img :: "ImageAugment \<Rightarrow> nat \<Rightarrow> img \<Rightarrow> py_error + img" where
  "shrink_img self r hr_img =
     (case shrink_target self hr_img of
        Inl e \<Rightarrow> Inl e
      | Inr target \<Rightarrow> Image_resize hr_img target (resample_method self r))"

definition add_jpeg_noise :: "ImageAugment \<Rightarrow> nat \<Rightarrow> img \<Rightarrow> py_error + img" where
  "add_jpeg_noise self r hr_img =
     (let quality = 100 - round_uniform r (fst (noise_level self)) (snd (noise_level self))
      in jpeg_roundtrip hr_img quality)"

definition process ::
  "ImageAugment \<Rightarrow> nat \<Rightarrow> nat \<Rightarrow> img \<Rightarrow> box \<Rightarrow> py_error + img \<times> img" where
  "process self r_choice r_noise source grid =
     (case Image_crop source grid of
        Inl e \<Rightarrow> Inl e
      | Inr hr_patch \<Rightarrow>
          (case shrink_img self r_choice hr_patch of
             Inl e \<Rightarrow> Inl e
           | Inr lr_patch \<Rightarrow>
               (if snd (noise_level self) > 0 then
                  (case add_jpeg_noise self r_noise lr_patch of
                     Inl e \<Rightarrow> Inl e
                   | Inr noisy \<Rightarrow> Inr (noisy, hr_patch))
                else Inr (lr_patch, hr_patch))))"

definition up_sample :: "ImageAugment \<Rightarrow> img \<Rightarrow> resample \<Rightarrow> py_error + img" where
  "up_sample self im flt =
     (case img_size im of (width, height) \<Rightarrow>
        Image_resize im (shrink_size self * width, shrink_size self * height) flt)"

section \<open>ImageData\<close>

record ImageData =
  max_path_per_img :: int
  patch_size :: int
  color_mod :: string
  img_augmenter :: ImageAugment
  patch_grids :: "(img \<times> img) list"

text \<open>The draws one image consumes: for the grid sample, and per grid cell for the filter
  choice and the noise.\<close>

record draws =
  sample_draws :: "nat \<Rightarrow> nat"
  choice_draws :: "nat \<Rightarrow> nat"
  noise_draws :: "nat \<Rightarrow> nat"

text \<open>A list comprehension or a map whose body may raise stops at the first exception.\<close>

fun collect :: "(py_error + 'a) list \<Rightarrow> py_error + 'a list" where
  "collect [] = Inr []"
| "collect (Inl e # rs) = Inl e"
| "collect (Inr x # rs) = (case collect rs of Inl e \<Rightarrow> Inl e | Inr xs \<Rightarrow> Inr (x # xs))"

text \<open>\<open>img_file\<close> is the decoded file, as \<^verbatim>\<open>Image.open\<close> returns it.\<close>

definition get_img_patches :: "ImageData \<Rightarrow> draws \<Rightarrow> img \<Rightarrow> py_error + (img \<times> img) list" where
  "get_img_patches self d img_file =
     (let im = Image_convert img_file Mode_RGB
      in case get_img_grids (patch_size self) (max_path_per_img self) (sample_draws d) im of
           Inl e \<Rightarrow> Inl e
         | Inr img_grids \<Rightarrow>
             collect (map (\<lambda>(k, grid).
                             process (img_augmenter self) (choice_draws d k) (noise_draws d k)
                               im grid)
                        (zip [0..<length img_grids] img_grids)))"

definition get_img_patch_grids ::
  "ImageData \<Rightarrow> (nat \<Rightarrow> draws) \<Rightarrow> img list \<Rightarrow> py_error + (img \<times> img) list" where
  "get_img_patch_grids self ds files =
     (case collect (map (\<lambda>(n, f). get_img_patches self (ds n) f)
                      (zip [0..<length files] files)) of
        Inl e \<Rightarrow> Inl e
      | Inr grids \<Rightarrow> Inr (concat grids))"

text \<open>\<open>files\<close> are the decoded images that the glob of \<open>img_folder\<close> finds, in its order.\<close>

definition ImageData_init ::
  "img list \<Rightarrow> (nat \<Rightarrow> draws) \<Rightarrow> int \<Rightarrow> int \<Rightarrow> int \<Rightarrow> int \<Rightarrow> resample option \<Rightarrow> string
     \<Rightarrow> py_error + ImageData" where
  "ImageData_init files ds max_patch_per_img patch_sz shrink_sz noise_lvl method color =
     (case ImageAugment_init shrink_sz noise_lvl method of
        Inl e \<Rightarrow> Inl e
      | Inr aug \<Rightarrow>
          (let self = \<lparr>max_path_per_img = max_patch_per_img, patch_size = patch_sz,
                       color_mod = color, img_augmenter = aug, patch_grids = []\<rparr>
           in case get_img_patch_grids self ds files of
                Inl e \<Rightarrow> Inl e
              | Inr grids \<Rightarrow> Inr (self\<lparr>patch_grids := grids\<rparr>)))"

definition len :: "ImageData \<Rightarrow> int" where
  "len self = int (length (patch_grids self))"

text \<open>Unpacking into three names raises ValueError unless there are exactly three values.\<close>

fun first_of_three :: "'a list \<Rightarrow> py_error + 'a" where
  "first_of_three [a, b, c] = Inr a"
| "first_of_three xs = Inl ValueError"

definition getitem :: "ImageData \<Rightarrow> int \<Rightarrow> py_error + img \<times> img" where
  "getitem self index =
     (case list_getitem (patch_grids self) index of
        Inl e \<Rightarrow> Inl e
      | Inr patch \<Rightarrow>
          if color_mod self = ''RGB'' then
            Inr (Image_convert (fst patch) Mode_RGB, Image_convert (snd patch) Mode_RGB)
          else if color_mod self = ''YCbCr'' then
            (case first_of_three (Image_split (Image_convert (fst patch) Mode_YCbCr)) of
               Inl e \<Rightarrow> Inl e
             | Inr lr_img \<Rightarrow>
                 (case first_of_three (Image_split (Image_convert (snd patch) Mode_YCbCr)) of
                    Inl e \<Rightarrow> Inl e
                  | Inr hr_img \<Rightarrow> Inr (lr_img, hr_img)))
          else Inl KeyError)"

section \<open>Tensors and ImageLoader.batch_collector\<close>

text \<open>
  A tensor is the expression that built it; pixel values are not computed. Its shape is
  what the program and the claims read: \<^verbatim>\<open>to_tensor\<close> of an image gives
  (channels, height, width), \<^verbatim>\<open>torch.stack\<close> puts the batch dimension first and needs
  a non-empty list of tensors of one shape, \<^verbatim>\<open>nn.ZeroPad2d(p)\<close> adds \<open>p\<close> zeros on each
  side of the last two dimensions (a negative \<open>p\<close> crops), and \<^verbatim>\<open>.cuda()\<close> keeps the shape.
\<close>

datatype tensor = ToTensor img | Stack "tensor list" | ZeroPad int tensor | Cuda tensor

fun pad_shape :: "int \<Rightarrow> int list \<Rightarrow> int list" where
  "pad_shape p [h, w] = [h + 2 * p, w + 2 * p]"
| "pad_shape p (d # ds) = d # pad_shape p ds"
| "pad_shape p [] = []"

fun shape :: "tensor \<Rightarrow> int list" where
  "shape (ToTensor im) = [int (channels (img_mode im)), snd (img_size im), fst (img_size im)]"
| "shape (Stack ts) = int (length ts) # (case ts of [] \<Rightarrow> [] | t # _ \<Rightarrow> shape t)"
| "shape (ZeroPad p t) = pad_shape p (shape t)"
| "shape (Cuda t) = shape t"

definition to_tensor :: "img \<Rightarrow> tensor" where
  "to_tensor im = ToTensor im"

definition torch_stack :: "tensor list \<Rightarrow> py_error + tensor" where
  "torch_stack ts =
     (case ts of
        [] \<Rightarrow> Inl RuntimeError
      | t # _ \<Rightarrow> if list_all (\<lambda>u. shape u = shape t) ts then Inr (Stack ts)
                 else Inl RuntimeError)"

definition ZeroPad2d :: "int \<Rightarrow> tensor \<Rightarrow> py_error + tensor" where
  "ZeroPad2d p t =
     (if length (shape t) < 2 \<or> \<not> list_all (\<lambda>d. 0 \<le> d) (pad_shape p (shape t))
      then Inl RuntimeError
      else Inr (ZeroPad p t))"

definition cuda :: "bool \<Rightarrow> tensor \<Rightarrow> tensor" where
  "cuda use_cuda t = (if use_cuda then Cuda t else t)"

record ImageLoader =
  dataset :: ImageData
  up_sample_filter :: "resample option"
  pad_img :: int

text \<open>The first component of the result is \<open>lr_img\<close>: the low-resolution batch alone, or
  the pair of it and the upsampled batch.\<close>

datatype lr_batch = Single tensor | Guided tensor tensor

fun lr_tensor :: "lr_batch \<Rightarrow> tensor" where
  "lr_tensor (Single t) = t"
| "lr_tensor (Guided t up) = t"

definition batch_collector ::
  "ImageLoader \<Rightarrow> bool \<Rightarrow> (img \<times> img) list \<Rightarrow> py_error + lr_batch \<times> tensor" where
  "batch_collector self use_cuda batch =
     (case torch_stack (map (\<lambda>i. to_tensor (fst i)) batch) of
        Inl e \<Rightarrow> Inl e
      | Inr lr_img \<Rightarrow>
     (case torch_stack (map (\<lambda>i. to_tensor (snd i)) batch) of
        Inl e \<Rightarrow> Inl e
      | Inr hr_img \<Rightarrow>
     (case (if pad_img self \<noteq> 0 then ZeroPad2d (pad_img self) lr_img else Inr lr_img) of
        Inl e \<Rightarrow> Inl e
      | Inr lr_img \<Rightarrow>
     (let lr_img = cuda use_cuda lr_img;
          hr_img = cuda use_cuda hr_img
      in case up_sample_filter self of
           None \<Rightarrow> Inr (Single lr_img, hr_img)
         | Some flt \<Rightarrow>
             (case collect (map (\<lambda>i. up_sample (img_augmenter (dataset self)) (fst i) flt)
                              batch) of
                Inl e \<Rightarrow> Inl e
              | Inr lr_img_up \<Rightarrow>
                  (case torch_stack (map to_tensor lr_img_up) of
                     Inl e \<Rightarrow> Inl e
                   | Inr lr_img_up \<Rightarrow>
                       Inr (Guided lr_img (cuda use_cuda lr_img_up), hr_img)))))))"

section \<open>Predicates of the claims\<close>

text \<open>
  \<open>box_within width height\<close> holds of a box whose first and third coordinates lie between
  0 and \<open>width\<close> and whose second and fourth lie between 0 and \<open>height\<close>; the far edges are
  exclusive, so this is containment in \<open>[0, width) \<times> [0, height)\<close>. Two boxes overlap when
  they share a pixel.
\<close>

fun box_within :: "int \<Rightarrow> int \<Rightarrow> box \<Rightarrow> bool" where
  "box_within width height (left, upper, right, lower) =
     (0 \<le> left \<and> left < right \<and> right \<le> width \<and> 0 \<le> upper \<and> upper < lower \<and> lower \<le> height)"

fun overlap :: "box \<Rightarrow> box \<Rightarrow> bool" where
  "overlap (l1, u1, r1, b1) (l2, u2, r2, b2) = (l1 < r2 \<and> l2 < r1 \<and> u1 < b2 \<and> u2 < b1)"

fun box_sides :: "box \<Rightarrow> int \<times> int" where
  "box_sides (left, upper, right, lower) = (right - left, lower - upper)"

text \<open>A decoded image has a non-negative width and height.\<close>

definition img_wf :: "img \<Rightarrow> bool" where
  "img_wf im = (0 \<le> fst (img_size im) \<and> 0 \<le> snd (img_size im))"

text \<open>Downsampling followed by upsampling, each step failing as the source's does.\<close>

definition shrink_then_up_sample ::
  "ImageAugment \<Rightarrow> nat \<Rightarrow> resample \<Rightarrow> img \<Rightarrow> py_error + img" where
  "shrink_then_up_sample self r flt im =
     (case shrink_img self r im of Inl e \<Rightarrow> Inl e | Inr lr_img \<Rightarrow> up_sample self lr_img flt)"



section \<open>Properties of the grid planner\<close>

lemma foldl_cond_append:
  "foldl (\<lambda>acc j. if P j then acc @ [f j] else acc) acc xs = acc @ map f (filter P xs)"
  by (induction xs arbitrary: acc) auto

lemma foldl_append_concat:
  "foldl (\<lambda>acc i. acc @ g i) acc xs = acc @ concat (map g xs)"
  by (induction xs arbitrary: acc) auto

lemma grid_row_eq:
  "grid_row ps w h cw i acc =
     acc @ map (grid_cell ps i) (filter (\<lambda>j. ps * (j + 1) \<le> h \<and> ps * (i + 1) \<le> w) (py_range cw))"
  unfolding grid_row_def by (rule foldl_cond_append)

lemma grid_rows_eq:
  "grid_rows ps w h cw ch =
     concat (map (\<lambda>i. map (grid_cell ps i)
                     (filter (\<lambda>j. ps * (j + 1) \<le> h \<and> ps * (i + 1) \<le> w) (py_range cw)))
              (py_range ch))"
  unfolding grid_rows_def grid_row_eq by (simp add: foldl_append_concat)

lemma concat_map_filter_product:
  "concat (map (\<lambda>i. map (f i) (filter (P i) ys)) xs) =
     map (\<lambda>(i, j). f i j) (filter (\<lambda>(i, j). P i j) (List.product xs ys))"
  by (induction xs) (auto simp: filter_map comp_def)

lemma grid_rows_product:
  "grid_rows ps w h cw ch =
     map (\<lambda>(i, j). grid_cell ps i j)
       (filter (\<lambda>(i, j). ps * (j + 1) \<le> h \<and> ps * (i + 1) \<le> w)
          (List.product (py_range ch) (py_range cw)))"
  unfolding grid_rows_eq by (rule concat_map_filter_product)


lemma set_py_range: "set (py_range n) = {i. 0 \<le> i \<and> i < n}"
  unfolding py_range_def by auto

lemma grid_rows_cells:
  assumes "bx \<in> set (grid_rows ps w h cw ch)"
  shows "\<exists>i j. bx = grid_cell ps i j \<and> 0 \<le> i \<and> i < ch \<and> 0 \<le> j \<and> j < cw
           \<and> ps * (j + 1) \<le> h \<and> ps * (i + 1) \<le> w"
  using assms unfolding grid_rows_product by (auto simp: set_py_range)

lemma sample_draw_subset: "set (sample_draw rng n xs k) \<subseteq> set xs"
proof (induction k arbitrary: n xs)
  case 0
  show ?case by simp
next
  case (Suc k)
  show ?case
  proof (cases "xs = []")
    case True
    then show ?thesis by simp
  next
    case False
    define i where "i = rng n mod length xs"
    have i: "i < length xs" using False by (simp add: i_def)
    have "set (take i xs @ drop (Suc i) xs) \<subseteq> set xs"
      using set_take_subset [of i xs] set_drop_subset [of "Suc i" xs] by auto
    with Suc.IH [of "Suc n" "take i xs @ drop (Suc i) xs"]
    have "set (sample_draw rng (Suc n) (take i xs @ drop (Suc i) xs) k) \<subseteq> set xs"
      by blast
    with i False show ?thesis by (simp add: i_def [symmetric] Let_def)
  qed
qed

lemma sample_draw_length: "k \<le> length xs \<Longrightarrow> length (sample_draw rng n xs k) = k"
proof (induction k arbitrary: n xs)
  case 0
  show ?case by simp
next
  case (Suc k)
  then have ne: "xs \<noteq> []" by auto
  define i where "i = rng n mod length xs"
  have i: "i < length xs" using ne by (simp add: i_def)
  have "length (take i xs @ drop (Suc i) xs) = length xs - 1"
    using i by simp
  with Suc.prems have "k \<le> length (take i xs @ drop (Suc i) xs)" by simp
  from Suc.IH [OF this] ne show ?case by (simp add: i_def [symmetric] Let_def)
qed

lemma distinct_remove_nth:
  assumes "distinct xs" and "i < length xs"
  shows "distinct (take i xs @ drop (Suc i) xs) \<and> xs ! i \<notin> set (take i xs @ drop (Suc i) xs)"
proof -
  have "xs = take i xs @ xs ! i # drop (Suc i) xs"
    using assms(2) by (rule id_take_nth_drop)
  then have "distinct (take i xs @ xs ! i # drop (Suc i) xs)"
    using assms(1) by simp
  then show ?thesis by auto
qed

lemma sample_draw_distinct: "distinct xs \<Longrightarrow> distinct (sample_draw rng n xs k)"
proof (induction k arbitrary: n xs)
  case 0
  show ?case by simp
next
  case (Suc k)
  show ?case
  proof (cases "xs = []")
    case True
    then show ?thesis by simp
  next
    case False
    define i where "i = rng n mod length xs"
    define ys where "ys = take i xs @ drop (Suc i) xs"
    have i: "i < length xs" using False by (simp add: i_def)
    from distinct_remove_nth [OF Suc.prems i]
    have d: "distinct ys" and notin: "xs ! i \<notin> set ys" by (simp_all add: ys_def)
    have "set (sample_draw rng (Suc n) ys k) \<subseteq> set ys" by (rule sample_draw_subset)
    with notin have "xs ! i \<notin> set (sample_draw rng (Suc n) ys k)" by blast
    with Suc.IH [OF d] False show ?thesis
      by (simp add: i_def [symmetric] ys_def [symmetric] Let_def)
  qed
qed

lemma get_img_grids_cases:
  assumes "ps \<noteq> 0" and "0 \<le> maxp" and "img_size im = (w, h)"
  shows "\<exists>boxes. get_img_grids ps maxp rng im = Inr boxes
           \<and> set boxes \<subseteq> set (grid_rows ps w h (w div ps) (h div ps))
           \<and> (distinct (grid_rows ps w h (w div ps) (h div ps)) \<longrightarrow> distinct boxes)
           \<and> int (length boxes) = min (int (length (grid_rows ps w h (w div ps) (h div ps)))) maxp"
proof (cases "int (length (grid_rows ps w h (w div ps) (h div ps))) > maxp")
  case True
  then have "nat maxp \<le> length (grid_rows ps w h (w div ps) (h div ps))"
    using assms(2) by linarith
  then have "length (sample_draw rng 0 (grid_rows ps w h (w div ps) (h div ps)) (nat maxp)) = nat maxp"
    by (rule sample_draw_length)
  with True assms show ?thesis
    by (simp add: get_img_grids_def py_floordiv_def random_sample_def Let_def
        sample_draw_subset sample_draw_distinct)
next
  case False
  with assms show ?thesis
    by (simp add: get_img_grids_def py_floordiv_def Let_def)
qed


lemma mult_le_div_iff:
  fixes ps k w :: int
  assumes "0 < ps"
  shows "(ps * k \<le> w) = (k \<le> w div ps)"
proof
  assume "ps * k \<le> w"
  then have "(ps * k) div ps \<le> w div ps" using assms by (rule zdiv_mono1)
  then show "k \<le> w div ps" using assms by simp
next
  assume "k \<le> w div ps"
  then have "ps * k \<le> ps * (w div ps)" using assms by simp
  also have "\<dots> = w - w mod ps" by (simp add: minus_mod_eq_mult_div)
  also have "\<dots> \<le> w" using assms by simp
  finally show "ps * k \<le> w" .
qed

lemma grid_cell_within:
  assumes "0 < ps" "0 \<le> i" "i < h div ps" "0 \<le> j" "j < w div ps"
    "ps * (j + 1) \<le> h" "ps * (i + 1) \<le> w"
  shows "box_within w h (grid_cell ps i j) \<and> box_within h w (grid_cell ps i j)"
proof -
  have "i + 1 \<le> h div ps" "j + 1 \<le> w div ps" using assms by simp_all
  then have "ps * (i + 1) \<le> h" "ps * (j + 1) \<le> w"
    using assms(1) by (simp_all add: mult_le_div_iff)
  moreover have "0 \<le> ps * i" "0 \<le> ps * j" using assms by simp_all
  moreover have "ps * i < ps * (i + 1)" "ps * j < ps * (j + 1)" using assms(1) by simp_all
  ultimately show ?thesis using assms(6,7) by (simp add: grid_cell_def)
qed

lemma grid_cell_overlap:
  assumes "0 < ps" "overlap (grid_cell ps i j) (grid_cell ps i' j')"
  shows "i = i' \<and> j = j'"
proof -
  from assms(2) have "ps * i < ps * (i' + 1)" "ps * i' < ps * (i + 1)"
    "ps * j < ps * (j' + 1)" "ps * j' < ps * (j + 1)"
    by (simp_all add: grid_cell_def)
  with assms(1) have "i < i' + 1" "i' < i + 1" "j < j' + 1" "j' < j + 1"
    by (simp_all add: mult_less_cancel_left_pos)
  then show ?thesis by simp
qed

lemma grid_cell_inj: "0 < ps \<Longrightarrow> grid_cell ps i j = grid_cell ps i' j' \<Longrightarrow> i = i' \<and> j = j'"
  by (simp add: grid_cell_def)

lemma grid_rows_distinct: "0 < ps \<Longrightarrow> distinct (grid_rows ps w h cw ch)"
  unfolding grid_rows_product py_range_def
  by (auto simp: distinct_map distinct_product inj_on_def dest: grid_cell_inj)


text \<open>
  Claim C1. For a positive patch size and a positive cap, \<^verbatim>\<open>get_img_grids\<close> returns, and
  every box it returns lies within the image: the box is the tuple that \<^verbatim>\<open>crop\<close> takes,
  (left, upper, right, lower), so its first and third coordinates are bounded by the width
  and its second and fourth by the height. The guard of the loop and the loop ranges
  together bound every coordinate by both dimensions, so the box is also within the image
  when the tuple is read as (top, left, bottom, right).
\<close>

theorem get_img_grids_within_bounds:
  assumes "0 < psize" and "0 < max_patches" and "img_size im = (width, height)"
  shows "\<exists>boxes. get_img_grids psize max_patches rng im = Inr boxes
           \<and> (\<forall>bx \<in> set boxes. box_within width height bx \<and> box_within height width bx)"
proof -
  from get_img_grids_cases [of psize max_patches im width height rng] assms
  obtain boxes where res: "get_img_grids psize max_patches rng im = Inr boxes"
    and sub: "set boxes \<subseteq> set (grid_rows psize width height (width div psize) (height div psize))"
    by auto
  have "box_within width height bx \<and> box_within height width bx" if "bx \<in> set boxes" for bx
  proof -
    from that sub grid_rows_cells [of bx psize width height]
    obtain i j where "bx = grid_cell psize i j" "0 \<le> i" "i < height div psize"
      "0 \<le> j" "j < width div psize"
      "psize * (j + 1) \<le> height" "psize * (i + 1) \<le> width"
      by blast
    with grid_cell_within [OF assms(1), of i height j width] show ?thesis by simp
  qed
  with res show ?thesis by blast
qed

theorem get_img_grids_within_bounds_witness:
  "(0::int) < 32 \<and> (0::int) < 10
   \<and> get_img_grids 32 10 (\<lambda>n. 0) \<lparr>img_size = (100, 70), img_mode = Mode_RGB, img_history = []\<rparr>
       = Inr [(0, 0, 32, 32), (0, 32, 32, 64), (32, 0, 64, 32), (32, 32, 64, 64)]
   \<and> box_within 100 70 (0, 0, 32, 32) \<and> box_within 100 70 (0, 32, 32, 64)
   \<and> box_within 100 70 (32, 0, 64, 32) \<and> box_within 100 70 (32, 32, 64, 64)"
proof -
  let ?im = "\<lparr>img_size = (100, 70), img_mode = Mode_RGB, img_history = []\<rparr>"
  let ?boxes = "[(0, 0, 32, 32), (0, 32, 32, 64), (32, 0, 64, 32), (32, 32, 64, 64)] :: box list"
  have ev: "get_img_grids 32 10 (\<lambda>n. 0) ?im = Inr ?boxes"
    by code_simp
  have "\<exists>boxes. Inr ?boxes = (Inr boxes :: py_error + box list)
           \<and> (\<forall>bx \<in> set boxes. box_within 100 70 bx \<and> box_within 70 100 bx)"
    using get_img_grids_within_bounds [of 32 10 ?im 100 70 "\<lambda>n. 0"] unfolding ev by simp
  then have "\<forall>bx \<in> set ?boxes. box_within 100 70 bx" by auto
  with ev show ?thesis by simp
qed

text \<open>
  Claim C9. Every box of a grid returned by \<^verbatim>\<open>get_img_grids\<close> is a square of side
  \<open>patch_size\<close>, and boxes at two different positions of the returned list never overlap.
  The cap is any positive number, so the statement covers the full tiling and the random
  sample alike, for every outcome of the random source.
\<close>

theorem get_img_grids_square_disjoint:
  assumes "0 < psize" and "0 < max_patches"
  shows "\<exists>boxes. get_img_grids psize max_patches rng im = Inr boxes
           \<and> (\<forall>bx \<in> set boxes. box_sides bx = (psize, psize))
           \<and> (\<forall>m < length boxes. \<forall>n < length boxes.
                 m \<noteq> n \<longrightarrow> \<not> overlap (boxes ! m) (boxes ! n))"
proof -
  obtain width height where sz: "img_size im = (width, height)" by (cases "img_size im")
  define full where
    "full = grid_rows psize width height (width div psize) (height div psize)"
  have "distinct full" unfolding full_def using assms(1) by (rule grid_rows_distinct)
  moreover have "psize \<noteq> 0" "0 \<le> max_patches" using assms by simp_all
  ultimately obtain boxes
    where res: "get_img_grids psize max_patches rng im = Inr boxes"
      and sub: "set boxes \<subseteq> set full" and dist: "distinct boxes"
    using get_img_grids_cases [of psize max_patches im width height rng] sz
    unfolding full_def by blast
  have cell: "\<exists>i j. bx = grid_cell psize i j" if "bx \<in> set boxes" for bx
    using that sub grid_rows_cells [of bx psize width height] unfolding full_def by blast
  have sides: "box_sides bx = (psize, psize)" if "bx \<in> set boxes" for bx
  proof -
    from cell [OF that] obtain i j where "bx = grid_cell psize i j" by blast
    then show ?thesis by (simp add: grid_cell_def algebra_simps)
  qed
  have apart: "\<not> overlap (boxes ! m) (boxes ! n)"
    if "m < length boxes" "n < length boxes" "m \<noteq> n" for m n
  proof
    assume ov: "overlap (boxes ! m) (boxes ! n)"
    from that cell [of "boxes ! m"] cell [of "boxes ! n"]
    obtain i j i' j' where c: "boxes ! m = grid_cell psize i j"
      "boxes ! n = grid_cell psize i' j'"
      by auto
    with ov grid_cell_overlap [OF assms(1), of i j i' j'] have "boxes ! m = boxes ! n" by simp
    with dist that show False by (simp add: nth_eq_iff_index_eq)
  qed
  from res sides apart show ?thesis by blast
qed



theorem get_img_grids_square_disjoint_witness:
  "(0::int) < 32 \<and> (0::int) < 2
   \<and> get_img_grids 32 2 (\<lambda>n. n) \<lparr>img_size = (64, 64), img_mode = Mode_RGB, img_history = []\<rparr>
       = Inr [(0, 0, 32, 32), (32, 0, 64, 32)]
   \<and> box_sides (0, 0, 32, 32) = (32, 32) \<and> box_sides (32, 0, 64, 32) = (32, 32)
   \<and> \<not> overlap (0, 0, 32, 32) (32, 0, 64, 32)"
proof -
  let ?im = "\<lparr>img_size = (64, 64), img_mode = Mode_RGB, img_history = []\<rparr>"
  let ?boxes = "[(0, 0, 32, 32), (32, 0, 64, 32)] :: box list"
  have ev: "get_img_grids 32 2 (\<lambda>n. n) ?im = Inr ?boxes"
    by code_simp
  have "\<exists>boxes. Inr ?boxes = (Inr boxes :: py_error + box list)
           \<and> (\<forall>bx \<in> set boxes. box_sides bx = (32, 32))
           \<and> (\<forall>m < length boxes. \<forall>n < length boxes.
                 m \<noteq> n \<longrightarrow> \<not> overlap (boxes ! m) (boxes ! n))"
    using get_img_grids_square_disjoint [of 32 2 "\<lambda>n. n" ?im] unfolding ev by simp
  then have sides: "\<forall>bx \<in> set ?boxes. box_sides bx = (32, 32)"
    and apart: "\<forall>m < length ?boxes. \<forall>n < length ?boxes.
                 m \<noteq> n \<longrightarrow> \<not> overlap (?boxes ! m) (?boxes ! n)"
    by auto
  from apart have "\<not> overlap (?boxes ! 0) (?boxes ! 1)" by simp
  with sides ev show ?thesis by simp
qed

section \<open>The number of boxes\<close>

lemma length_filter_product:
  "length (filter (\<lambda>(i, j). B j \<and> A i) (List.product xs ys))
     = length (filter A xs) * length (filter B ys)"
proof (induction xs)
  case Nil
  show ?case by simp
next
  case (Cons x xs)
  have "length (filter (\<lambda>(i, j). B j \<and> A i) (map (Pair x) ys))
      = (if A x then length (filter B ys) else 0)"
    by (induction ys) simp_all
  with Cons show ?case by simp
qed

lemma length_filter_py_range: "length (filter (\<lambda>i. i < c) (py_range n)) = nat (min c n)"
proof -
  have "distinct (py_range n)" by (simp add: py_range_def)
  then have "length (filter (\<lambda>i. i < c) (py_range n)) = card ({i. i < c} \<inter> set (py_range n))"
    by (rule distinct_length_filter)
  also have "{i. i < c} \<inter> set (py_range n) = {0..<min c n}"
    by (auto simp: py_range_def)
  finally show ?thesis by simp
qed

lemma grid_rows_length:
  assumes "0 < ps"
  shows "length (grid_rows ps w h (w div ps) (h div ps))
     = nat (min (w div ps) (h div ps)) * nat (min (w div ps) (h div ps))"
proof -
  have guard: "(\<lambda>(i, j). ps * (j + 1) \<le> h \<and> ps * (i + 1) \<le> w)
      = (\<lambda>(i, j). j < h div ps \<and> i < w div ps)"
    using assms by (auto simp: mult_le_div_iff fun_eq_iff)
  show ?thesis
    unfolding grid_rows_product guard
    by (simp add: length_filter_product length_filter_py_range min.commute)
qed

text \<open>
  The loops run \<open>i\<close> over the rows (\<open>count_h\<close>) and \<open>j\<close> over the columns (\<open>count_w\<close>), but
  the box they append has \<open>i\<close> in its horizontal coordinates and \<open>j\<close> in its vertical ones,
  and the guard then keeps only \<open>i < count_w\<close> and \<open>j < count_h\<close>. A grid therefore has
  \<open>min count_w count_h\<close> boxes along each axis, whatever the shape of the image.
\<close>

lemma get_img_grids_length:
  assumes "0 < ps" and "0 \<le> maxp" and "img_size im = (w, h)" and "0 \<le> w" and "0 \<le> h"
  shows "\<exists>boxes. get_img_grids ps maxp rng im = Inr boxes
           \<and> int (length boxes)
               = min (min (w div ps) (h div ps) * min (w div ps) (h div ps)) maxp"
proof -
  have "0 \<le> min (w div ps) (h div ps)"
    using assms by (simp add: pos_imp_zdiv_nonneg_iff)
  then have "int (length (grid_rows ps w h (w div ps) (h div ps)))
      = min (w div ps) (h div ps) * min (w div ps) (h div ps)"
    unfolding grid_rows_length [OF assms(1)] by simp
  with get_img_grids_cases [of ps maxp im w h rng] assms show ?thesis by auto
qed

text \<open>
  Claim C2 asks for \<open>min (count_w * count_h) max_patch_per_img\<close> boxes. A 64 x 32 image
  with patch size 32 has \<open>count_w = 2\<close> and \<open>count_h = 1\<close>, so two boxes are due under a cap
  of 10; \<^verbatim>\<open>get_img_grids\<close> returns one, and the right half of the image is never cut.
\<close>

theorem get_img_grids_count_64x32:
  "get_img_grids 32 10 (\<lambda>n. 0) \<lparr>img_size = (64, 32), img_mode = Mode_RGB, img_history = []\<rparr>
     = Inr [(0, 0, 32, 32)]
   \<and> min ((64 div 32) * (32 div 32)) (10::int) = 2"
  by code_simp


section \<open>Properties of ImageAugment\<close>

lemma py_int_truediv_nonneg:
  "0 \<le> x \<Longrightarrow> 0 < s \<Longrightarrow> py_int_truediv x s = Inr (x div s)"
  by (cases "x = 0") (simp_all add: py_int_truediv_def)

lemma shrink_target_nonneg:
  assumes "0 < shrink_size self" and "img_size im = (w, h)" and "0 \<le> w" and "0 \<le> h"
  shows "shrink_target self im = Inr (w div shrink_size self, h div shrink_size self)"
  using assms by (simp add: shrink_target_def py_int_truediv_nonneg)

lemma div_in_range:
  fixes s x :: int
  assumes "0 < s" and "s \<le> x" and "x < 2 ^ 31"
  shows "1 \<le> x div s" and "c_int (x div s)" and "1 \<le> s * (x div s)" and "c_int (s * (x div s))"
proof -
  show one: "1 \<le> x div s"
    using assms(1,2) pos_imp_zdiv_pos_iff [of s x] by simp
  have "s * (x div s) = x - x mod s" by (simp add: minus_mod_eq_mult_div)
  also have "\<dots> \<le> x" using assms(1) by simp
  finally have le: "s * (x div s) \<le> x" .
  have "1 * (x div s) \<le> s * (x div s)"
    using assms(1) one mult_right_mono [of 1 s "x div s"] by linarith
  then have dle: "x div s \<le> s * (x div s)" by simp
  from one dle show "1 \<le> s * (x div s)" by linarith
  from dle le assms(3) have up: "x div s < 2 ^ 31" "s * (x div s) < 2 ^ 31" by linarith+
  have "(0::int) < 2 ^ 31" by simp
  with one dle have lo: "- (2 ^ 31) \<le> x div s" "- (2 ^ 31) \<le> s * (x div s)"
    by linarith+
  from up lo show "c_int (x div s)" and "c_int (s * (x div s))"
    unfolding c_int_def by blast+
qed

lemma shrink_img_fits:
  assumes "0 < shrink_size self" and "img_size im = (w, h)"
    and "shrink_size self \<le> w" and "shrink_size self \<le> h" and "w < 2 ^ 31" and "h < 2 ^ 31"
  shows "shrink_img self r im =
     Inr (im\<lparr>img_size := (w div shrink_size self, h div shrink_size self),
              img_history := img_history im
                @ [Resize (w div shrink_size self, h div shrink_size self)
                     (resample_method self r)]\<rparr>)"
proof -
  have "0 \<le> w" "0 \<le> h" using assms by simp_all
  from shrink_target_nonneg [OF assms(1,2) this]
  have tgt: "shrink_target self im = Inr (w div shrink_size self, h div shrink_size self)" .
  show ?thesis
    using div_in_range(1,2) [OF assms(1,3,5)] div_in_range(1,2) [OF assms(1,4,6)]
    by (simp add: shrink_img_def tgt Image_resize_def)
qed

text \<open>
  Claim C8. Constructing an \<^verbatim>\<open>ImageAugment\<close> maps noise level 0 to the range (0, 0),
  1 to (5, 25) and 2 to (25, 50); it fails, with KeyError, exactly when the level is none
  of the three. The failure happens at construction: \<^verbatim>\<open>ImageData.__init__\<close> builds the
  augmenter before it reads any file, so it fails with the same error whatever the files,
  the patch size and the other parameters are.
\<close>

theorem ImageAugment_init_levels:
  "ImageAugment_init s 0 m = Inr \<lparr>noise_level = (0, 0), shrink_size = s, down_sample_method = m\<rparr>
   \<and> ImageAugment_init s 1 m = Inr \<lparr>noise_level = (5, 25), shrink_size = s, down_sample_method = m\<rparr>
   \<and> ImageAugment_init s 2 m = Inr \<lparr>noise_level = (25, 50), shrink_size = s, down_sample_method = m\<rparr>
   \<and> (ImageAugment_init s n m = Inl KeyError) = (n \<notin> {0, 1, 2})
   \<and> isl (ImageAugment_init s n m) = (n \<notin> {0, 1, 2})
   \<and> (n \<notin> {0, 1, 2} \<longrightarrow> ImageData_init files ds max_patches psize s n m color = Inl KeyError)"
  by (simp add: ImageAugment_init_def ImageData_init_def)

theorem ImageAugment_init_levels_witness:
  "(3::int) \<notin> {0, 1, 2}
   \<and> ImageAugment_init 2 3 None = Inl KeyError
   \<and> ImageData_init [\<lparr>img_size = (64, 64), img_mode = Mode_RGB, img_history = []\<rparr>]
        (\<lambda>n. \<lparr>sample_draws = (\<lambda>k. 0), choice_draws = (\<lambda>k. 0), noise_draws = (\<lambda>k. 0)\<rparr>)
        10 0 2 3 None ''RGB'' = Inl KeyError
   \<and> ImageData_init [\<lparr>img_size = (64, 64), img_mode = Mode_RGB, img_history = []\<rparr>]
        (\<lambda>n. \<lparr>sample_draws = (\<lambda>k. 0), choice_draws = (\<lambda>k. 0), noise_draws = (\<lambda>k. 0)\<rparr>)
        10 0 2 1 None ''RGB'' = Inl ZeroDivisionError"
proof -
  have ev: "ImageData_init [\<lparr>img_size = (64, 64), img_mode = Mode_RGB, img_history = []\<rparr>]
        (\<lambda>n. \<lparr>sample_draws = (\<lambda>k. 0), choice_draws = (\<lambda>k. 0), noise_draws = (\<lambda>k. 0)\<rparr>)
        10 0 2 1 None ''RGB'' = Inl ZeroDivisionError"
    by code_simp
  show ?thesis
    using ImageAugment_init_levels [of 2 None 3 "[\<lparr>img_size = (64, 64), img_mode = Mode_RGB, img_history = []\<rparr>]"
        "\<lambda>n. \<lparr>sample_draws = (\<lambda>k. 0), choice_draws = (\<lambda>k. 0), noise_draws = (\<lambda>k. 0)\<rparr>"
        10 0 "''RGB''"] ev
    by simp
qed




text \<open>
  Downsampling rounds each dimension down, and upsampling multiplies it back: a 3 x 3
  image shrunk by 2 is 1 x 1, and upsampled it is 2 x 2, not 3 x 3.
\<close>

theorem shrink_then_up_sample_counterexample:
  "shrink_then_up_sample \<lparr>noise_level = (0, 0), shrink_size = 2, down_sample_method = None\<rparr>
       0 BILINEAR \<lparr>img_size = (3, 3), img_mode = Mode_RGB, img_history = []\<rparr>
     = Inr \<lparr>img_size = (2, 2), img_mode = Mode_RGB,
            img_history = [Resize (1, 1) BILINEAR, Resize (2, 2) BILINEAR]\<rparr>"
  by code_simp

text \<open>
  Claim C3, amended. For a positive shrink size \<open>s\<close> and an image of size (w, h) with no
  side below \<open>s\<close>, \<^verbatim>\<open>up_sample\<close> applied to the result of \<^verbatim>\<open>shrink_img\<close> returns an
  image of size (s * (w div s), s * (h div s)); these are the original dimensions exactly
  when \<open>s\<close> divides both \<open>w\<close> and \<open>h\<close>.
\<close>

theorem shrink_then_up_sample_size:
  assumes "0 < shrink_size self" and "img_size im = (w, h)"
    and "shrink_size self \<le> w" and "shrink_size self \<le> h" and "w < 2 ^ 31" and "h < 2 ^ 31"
  shows "\<exists>up. shrink_then_up_sample self r flt im = Inr up
           \<and> img_size up = (shrink_size self * (w div shrink_size self),
                            shrink_size self * (h div shrink_size self))
           \<and> (img_size up = (w, h)) = (shrink_size self dvd w \<and> shrink_size self dvd h)"
proof -
  define s where "s = shrink_size self"
  have rng: "1 \<le> s * (w div s)" "c_int (s * (w div s))" "1 \<le> s * (h div s)" "c_int (s * (h div s))"
    using div_in_range(3,4) [OF assms(1,3,5)] div_in_range(3,4) [OF assms(1,4,6)]
    by (simp_all add: s_def)
  have dv: "(s * (w div s) = w) = (s dvd w)" "(s * (h div s) = h) = (s dvd h)"
    by (metis dvd_triv_left dvd_mult_div_cancel)+
  show ?thesis
    unfolding shrink_then_up_sample_def shrink_img_fits [OF assms]
    using rng dv by (simp add: up_sample_def Image_resize_def s_def)
qed

theorem shrink_then_up_sample_size_witness:
  "(0::int) < 2 \<and> (2::int) \<le> 6 \<and> (2::int) \<le> 4 \<and> (6::int) < 2 ^ 31 \<and> (4::int) < 2 ^ 31
   \<and> (2::int) dvd 6 \<and> (2::int) dvd 4
   \<and> shrink_then_up_sample \<lparr>noise_level = (0, 0), shrink_size = 2, down_sample_method = None\<rparr>
       0 BILINEAR \<lparr>img_size = (6, 4), img_mode = Mode_RGB, img_history = []\<rparr>
     = Inr \<lparr>img_size = (6, 4), img_mode = Mode_RGB,
            img_history = [Resize (3, 2) BILINEAR, Resize (6, 4) BILINEAR]\<rparr>"
proof -
  have ev: "shrink_then_up_sample \<lparr>noise_level = (0, 0), shrink_size = 2, down_sample_method = None\<rparr>
       0 BILINEAR \<lparr>img_size = (6, 4), img_mode = Mode_RGB, img_history = []\<rparr>
     = Inr \<lparr>img_size = (6, 4), img_mode = Mode_RGB,
            img_history = [Resize (3, 2) BILINEAR, Resize (6, 4) BILINEAR]\<rparr>"
    by code_simp
  from shrink_then_up_sample_size
    [of "\<lparr>noise_level = (0, 0), shrink_size = 2, down_sample_method = None\<rparr>"
        "\<lparr>img_size = (6, 4), img_mode = Mode_RGB, img_history = []\<rparr>" 6 4 0 BILINEAR]
  have "(2::int) dvd 6 \<and> (2::int) dvd 4" unfolding ev by simp
  with ev show ?thesis by simp
qed



section \<open>Properties of ImageData.__getitem__\<close>

lemma list_getitem_in_range:
  "0 \<le> index \<Longrightarrow> index < int (length xs) \<Longrightarrow> list_getitem xs index = Inr (xs ! nat index)"
  by (simp add: list_getitem_def Let_def)

text \<open>
  The index goes to the list of patches unchecked, and a Python list reads a negative
  index from the end: on a corpus of one patch, index -1 is outside \<open>[0, 1)\<close> and the
  fetch returns the patch.
\<close>

theorem getitem_negative_index_counterexample:
  "len \<lparr>max_path_per_img = 10, patch_size = 4, color_mod = ''RGB'',
         img_augmenter = \<lparr>noise_level = (0, 0), shrink_size = 2, down_sample_method = None\<rparr>,
         patch_grids = [(\<lparr>img_size = (2, 2), img_mode = Mode_RGB, img_history = []\<rparr>,
                         \<lparr>img_size = (4, 4), img_mode = Mode_RGB, img_history = []\<rparr>)]\<rparr> = 1
   \<and> getitem \<lparr>max_path_per_img = 10, patch_size = 4, color_mod = ''RGB'',
         img_augmenter = \<lparr>noise_level = (0, 0), shrink_size = 2, down_sample_method = None\<rparr>,
         patch_grids = [(\<lparr>img_size = (2, 2), img_mode = Mode_RGB, img_history = []\<rparr>,
                         \<lparr>img_size = (4, 4), img_mode = Mode_RGB, img_history = []\<rparr>)]\<rparr> (- 1)
       = Inr (\<lparr>img_size = (2, 2), img_mode = Mode_RGB, img_history = [Convert Mode_RGB]\<rparr>,
              \<lparr>img_size = (4, 4), img_mode = Mode_RGB, img_history = [Convert Mode_RGB]\<rparr>)"
  by (simp add: len_def getitem_def list_getitem_def Image_convert_def)

text \<open>
  Claim C4, amended. \<^verbatim>\<open>__getitem__\<close> fails with IndexError for every index that is at
  least the length or below minus the length, without clamping; an index from minus the
  length up to -1 is not rejected: the fetch is that of \<open>index + length\<close>, the element
  counted from the end.
\<close>

theorem getitem_out_of_range:
  "(len self \<le> index \<or> index < - len self \<longrightarrow> getitem self index = Inl IndexError)
   \<and> (- len self \<le> index \<and> index < 0 \<longrightarrow> getitem self index = getitem self (index + len self))"
  by (simp add: getitem_def list_getitem_def len_def Let_def)

theorem getitem_out_of_range_witness:
  "getitem \<lparr>max_path_per_img = 10, patch_size = 4, color_mod = ''RGB'',
         img_augmenter = \<lparr>noise_level = (0, 0), shrink_size = 2, down_sample_method = None\<rparr>,
         patch_grids = [(\<lparr>img_size = (2, 2), img_mode = Mode_RGB, img_history = []\<rparr>,
                         \<lparr>img_size = (4, 4), img_mode = Mode_RGB, img_history = []\<rparr>)]\<rparr> 1
     = Inl IndexError
   \<and> getitem \<lparr>max_path_per_img = 10, patch_size = 4, color_mod = ''RGB'',
         img_augmenter = \<lparr>noise_level = (0, 0), shrink_size = 2, down_sample_method = None\<rparr>,
         patch_grids = [(\<lparr>img_size = (2, 2), img_mode = Mode_RGB, img_history = []\<rparr>,
                         \<lparr>img_size = (4, 4), img_mode = Mode_RGB, img_history = []\<rparr>)]\<rparr> (- 2)
     = Inl IndexError"
proof -
  let ?d = "\<lparr>max_path_per_img = 10, patch_size = 4, color_mod = ''RGB'',
         img_augmenter = \<lparr>noise_level = (0, 0), shrink_size = 2, down_sample_method = None\<rparr>,
         patch_grids = [(\<lparr>img_size = (2, 2), img_mode = Mode_RGB, img_history = []\<rparr>,
                         \<lparr>img_size = (4, 4), img_mode = Mode_RGB, img_history = []\<rparr>)]\<rparr>"
  have l: "len ?d = 1" by (simp add: len_def)
  from getitem_out_of_range [of ?d 1] l have a: "getitem ?d 1 = Inl IndexError" by simp
  from getitem_out_of_range [of ?d "- 2"] l have b: "getitem ?d (- 2) = Inl IndexError" by simp
  from a b show ?thesis by simp
qed

text \<open>
  Claim C5. For an index in range, a fetch with colour mode \<open>YCbCr\<close> returns a pair of
  single-channel images: each member is the first band, the luminance, of the member of
  the stored pair converted to YCbCr, and the two chroma bands are dropped. With \<open>RGB\<close>
  it returns the two members converted to RGB, three-channel images. With any other
  colour mode it fails with KeyError.
\<close>

theorem getitem_color_mod:
  assumes "0 \<le> index" and "index < len self"
  shows "(color_mod self = ''YCbCr'' \<longrightarrow>
            (\<exists>lr_img hr_img. getitem self index = Inr (lr_img, hr_img)
               \<and> channels (img_mode lr_img) = 1 \<and> channels (img_mode hr_img) = 1
               \<and> lr_img = hd (Image_split (Image_convert (fst (patch_grids self ! nat index)) Mode_YCbCr))
               \<and> hr_img = hd (Image_split (Image_convert (snd (patch_grids self ! nat index)) Mode_YCbCr))
               \<and> img_history lr_img
                   = img_history (fst (patch_grids self ! nat index)) @ [Convert Mode_YCbCr, Band 0]
               \<and> img_history hr_img
                   = img_history (snd (patch_grids self ! nat index)) @ [Convert Mode_YCbCr, Band 0]
               \<and> img_size lr_img = img_size (fst (patch_grids self ! nat index))
               \<and> img_size hr_img = img_size (snd (patch_grids self ! nat index))))
       \<and> (color_mod self = ''RGB'' \<longrightarrow>
            (\<exists>lr_img hr_img. getitem self index = Inr (lr_img, hr_img)
               \<and> channels (img_mode lr_img) = 3 \<and> channels (img_mode hr_img) = 3
               \<and> lr_img = Image_convert (fst (patch_grids self ! nat index)) Mode_RGB
               \<and> hr_img = Image_convert (snd (patch_grids self ! nat index)) Mode_RGB
               \<and> img_mode lr_img = Mode_RGB \<and> img_mode hr_img = Mode_RGB))
       \<and> (color_mod self \<noteq> ''RGB'' \<and> color_mod self \<noteq> ''YCbCr'' \<longrightarrow>
            getitem self index = Inl KeyError)"
proof -
  define patch where "patch = patch_grids self ! nat index"
  have g: "list_getitem (patch_grids self) index = Inr patch"
    using assms by (simp add: list_getitem_in_range len_def patch_def)
  have bands: "Image_split (Image_convert im Mode_YCbCr)
      = map (\<lambda>k. im\<lparr>img_mode := Mode_L,
                       img_history := img_history im @ [Convert Mode_YCbCr, Band k]\<rparr>) [0, 1, 2]"
    for im
    by (simp add: Image_split_def Image_convert_def upt_rec [of 0] upt_rec [of 1] upt_rec [of 2]
        numeral_3_eq_3)
  have ycc: "getitem self index
      = Inr (hd (Image_split (Image_convert (fst patch) Mode_YCbCr)),
             hd (Image_split (Image_convert (snd patch) Mode_YCbCr)))"
    if "color_mod self = ''YCbCr''"
    using that by (simp add: getitem_def g bands)
  have rgb: "getitem self index
      = Inr (Image_convert (fst patch) Mode_RGB, Image_convert (snd patch) Mode_RGB)"
    if "color_mod self = ''RGB''"
    using that by (simp add: getitem_def g)
  have other: "getitem self index = Inl KeyError"
    if "color_mod self \<noteq> ''RGB''" "color_mod self \<noteq> ''YCbCr''"
    using that by (simp add: getitem_def g)
  show ?thesis
    unfolding patch_def [symmetric]
  proof (intro conjI impI)
    assume "color_mod self = ''YCbCr''"
    from ycc [OF this]
    show "\<exists>lr_img hr_img. getitem self index = Inr (lr_img, hr_img)
               \<and> channels (img_mode lr_img) = 1 \<and> channels (img_mode hr_img) = 1
               \<and> lr_img = hd (Image_split (Image_convert (fst patch) Mode_YCbCr))
               \<and> hr_img = hd (Image_split (Image_convert (snd patch) Mode_YCbCr))
               \<and> img_history lr_img = img_history (fst patch) @ [Convert Mode_YCbCr, Band 0]
               \<and> img_history hr_img = img_history (snd patch) @ [Convert Mode_YCbCr, Band 0]
               \<and> img_size lr_img = img_size (fst patch)
               \<and> img_size hr_img = img_size (snd patch)"
      by (simp add: bands)
  next
    assume "color_mod self = ''RGB''"
    from rgb [OF this]
    show "\<exists>lr_img hr_img. getitem self index = Inr (lr_img, hr_img)
               \<and> channels (img_mode lr_img) = 3 \<and> channels (img_mode hr_img) = 3
               \<and> lr_img = Image_convert (fst patch) Mode_RGB
               \<and> hr_img = Image_convert (snd patch) Mode_RGB
               \<and> img_mode lr_img = Mode_RGB \<and> img_mode hr_img = Mode_RGB"
      by (simp add: Image_convert_def)
  next
    assume "color_mod self \<noteq> ''RGB'' \<and> color_mod self \<noteq> ''YCbCr''"
    then show "getitem self index = Inl KeyError" using other by simp
  qed
qed

theorem getitem_color_mod_witness:
  "getitem \<lparr>max_path_per_img = 10, patch_size = 4, color_mod = ''YCbCr'',
         img_augmenter = \<lparr>noise_level = (0, 0), shrink_size = 2, down_sample_method = None\<rparr>,
         patch_grids = [(\<lparr>img_size = (2, 2), img_mode = Mode_RGB, img_history = []\<rparr>,
                         \<lparr>img_size = (4, 4), img_mode = Mode_RGB, img_history = []\<rparr>)]\<rparr> 0
     = Inr (\<lparr>img_size = (2, 2), img_mode = Mode_L, img_history = [Convert Mode_YCbCr, Band 0]\<rparr>,
            \<lparr>img_size = (4, 4), img_mode = Mode_L, img_history = [Convert Mode_YCbCr, Band 0]\<rparr>)
   \<and> getitem \<lparr>max_path_per_img = 10, patch_size = 4, color_mod = ''RGB'',
         img_augmenter = \<lparr>noise_level = (0, 0), shrink_size = 2, down_sample_method = None\<rparr>,
         patch_grids = [(\<lparr>img_size = (2, 2), img_mode = Mode_RGB, img_history = []\<rparr>,
                         \<lparr>img_size = (4, 4), img_mode = Mode_RGB, img_history = []\<rparr>)]\<rparr> 0
     = Inr (\<lparr>img_size = (2, 2), img_mode = Mode_RGB, img_history = [Convert Mode_RGB]\<rparr>,
            \<lparr>img_size = (4, 4), img_mode = Mode_RGB, img_history = [Convert Mode_RGB]\<rparr>)
   \<and> getitem \<lparr>max_path_per_img = 10, patch_size = 4, color_mod = ''L'',
         img_augmenter = \<lparr>noise_level = (0, 0), shrink_size = 2, down_sample_method = None\<rparr>,
         patch_grids = [(\<lparr>img_size = (2, 2), img_mode = Mode_RGB, img_history = []\<rparr>,
                         \<lparr>img_size = (4, 4), img_mode = Mode_RGB, img_history = []\<rparr>)]\<rparr> 0
     = Inl KeyError"
proof -
  let ?d = "\<lambda>c. \<lparr>max_path_per_img = 10, patch_size = 4, color_mod = c,
         img_augmenter = \<lparr>noise_level = (0, 0), shrink_size = 2, down_sample_method = None\<rparr>,
         patch_grids = [(\<lparr>img_size = (2, 2), img_mode = Mode_RGB, img_history = []\<rparr>,
                         \<lparr>img_size = (4, 4), img_mode = Mode_RGB, img_history = []\<rparr>)]\<rparr>"
  have split3: "hd (Image_split (Image_convert im Mode_YCbCr))
      = im\<lparr>img_mode := Mode_L, img_history := img_history im @ [Convert Mode_YCbCr, Band 0]\<rparr>"
    for im
    by (simp add: Image_split_def Image_convert_def upt_rec [of 0] numeral_3_eq_3)
  have ycc: "getitem (?d ''YCbCr'') 0
     = Inr (\<lparr>img_size = (2, 2), img_mode = Mode_L, img_history = [Convert Mode_YCbCr, Band 0]\<rparr>,
            \<lparr>img_size = (4, 4), img_mode = Mode_L, img_history = [Convert Mode_YCbCr, Band 0]\<rparr>)"
    using getitem_color_mod [of 0 "?d ''YCbCr''"] by (auto simp: len_def split3)
  have rgb: "getitem (?d ''RGB'') 0
     = Inr (\<lparr>img_size = (2, 2), img_mode = Mode_RGB, img_history = [Convert Mode_RGB]\<rparr>,
            \<lparr>img_size = (4, 4), img_mode = Mode_RGB, img_history = [Convert Mode_RGB]\<rparr>)"
    using getitem_color_mod [of 0 "?d ''RGB''"] by (auto simp: len_def Image_convert_def)
  have other: "getitem (?d ''L'') 0 = Inl KeyError"
    using getitem_color_mod [of 0 "?d ''L''"] by (simp add: len_def)
  from ycc rgb other show ?thesis by simp
qed

section \<open>Properties of ImageLoader.batch_collector\<close>

lemma torch_stack_Inr:
  assumes "torch_stack ts = Inr t"
  shows "ts \<noteq> [] \<and> t = Stack ts \<and> shape t = int (length ts) # shape (hd ts)"
  using assms by (cases ts) (auto simp: torch_stack_def split: if_splits)

lemma torch_stack_to_tensor:
  assumes "torch_stack (map (\<lambda>i. to_tensor (f i)) batch) = Inr t"
  shows "batch \<noteq> []
     \<and> shape t = [int (length batch), int (channels (img_mode (f (hd batch)))),
                  snd (img_size (f (hd batch))), fst (img_size (f (hd batch)))]"
  using torch_stack_Inr [OF assms] by (cases batch) (simp_all add: to_tensor_def)

lemma ZeroPad2d_batch:
  assumes "shape t = [n, c, h, w]" and "0 \<le> n" and "0 \<le> c" and "0 \<le> h" and "0 \<le> w"
    and "0 \<le> p"
  shows "ZeroPad2d p t = Inr (ZeroPad p t)"
    and "shape (ZeroPad p t) = [n, c, h + 2 * p, w + 2 * p]"
  using assms by (simp_all add: ZeroPad2d_def)

text \<open>
  Claim C7. Take a batch whose low-resolution images are well-formed and a pad amount
  \<open>p > 0\<close>. Whenever \<^verbatim>\<open>batch_collector\<close> returns with no padding, it returns with
  padding \<open>p\<close> too; the high-resolution batch tensor is the same in both results, and the
  low-resolution batch tensor, of shape (n, c, h, w) without padding, has shape
  (n, c, h + 2p, w + 2p) with it. When it raises with no padding (an empty batch, members
  of different shapes), it raises the same exception with padding.
\<close>

theorem batch_collector_pad:
  assumes "0 < p" and "\<forall>i \<in> set batch. img_wf (fst i)"
  shows "(\<forall>lr0 hr0. batch_collector (self\<lparr>pad_img := 0\<rparr>) use_cuda batch = Inr (lr0, hr0) \<longrightarrow>
            (\<exists>lrp n c h w.
               batch_collector (self\<lparr>pad_img := p\<rparr>) use_cuda batch = Inr (lrp, hr0)
               \<and> shape (lr_tensor lr0) = [n, c, h, w]
               \<and> shape (lr_tensor lrp) = [n, c, h + 2 * p, w + 2 * p]))
       \<and> (\<forall>e. batch_collector (self\<lparr>pad_img := 0\<rparr>) use_cuda batch = Inl e \<longrightarrow>
               batch_collector (self\<lparr>pad_img := p\<rparr>) use_cuda batch = Inl e)"
proof (cases "torch_stack (map (\<lambda>i. to_tensor (fst i)) batch)")
  case (Inl e)
  then show ?thesis by (simp add: batch_collector_def)
next
  case (Inr lr)
  from torch_stack_to_tensor [OF Inr] have ne: "batch \<noteq> []"
    and sh: "shape lr = [int (length batch), int (channels (img_mode (fst (hd batch)))),
                  snd (img_size (fst (hd batch))), fst (img_size (fst (hd batch)))]"
    by simp_all
  from ne assms(2) have "img_wf (fst (hd batch))" by simp
  then have nn: "0 \<le> snd (img_size (fst (hd batch)))" "0 \<le> fst (img_size (fst (hd batch)))"
    by (simp_all add: img_wf_def)
  have pad: "ZeroPad2d p lr = Inr (ZeroPad p lr)"
    and shp: "shape (ZeroPad p lr) = [int (length batch), int (channels (img_mode (fst (hd batch)))),
                  snd (img_size (fst (hd batch))) + 2 * p, fst (img_size (fst (hd batch))) + 2 * p]"
    using ZeroPad2d_batch [OF sh _ _ nn, of p] assms(1) by simp_all
  show ?thesis
    using assms(1) sh shp
    by (auto simp: batch_collector_def Inr pad cuda_def Let_def
        split: sum.splits option.splits)
qed


theorem batch_collector_pad_witness:
  "(0::int) < 3
   \<and> img_wf \<lparr>img_size = (2, 2), img_mode = Mode_RGB, img_history = []\<rparr>
   \<and> batch_collector
         \<lparr>dataset = \<lparr>max_path_per_img = 10, patch_size = 4, color_mod = ''RGB'',
              img_augmenter = \<lparr>noise_level = (0, 0), shrink_size = 2, down_sample_method = None\<rparr>,
              patch_grids = []\<rparr>,
            up_sample_filter = None, pad_img = 0\<rparr> False
         [(\<lparr>img_size = (2, 2), img_mode = Mode_RGB, img_history = []\<rparr>,
           \<lparr>img_size = (4, 4), img_mode = Mode_RGB, img_history = []\<rparr>)]
       = Inr (Single (Stack [ToTensor \<lparr>img_size = (2, 2), img_mode = Mode_RGB, img_history = []\<rparr>]),
              Stack [ToTensor \<lparr>img_size = (4, 4), img_mode = Mode_RGB, img_history = []\<rparr>])
   \<and> batch_collector
         \<lparr>dataset = \<lparr>max_path_per_img = 10, patch_size = 4, color_mod = ''RGB'',
              img_augmenter = \<lparr>noise_level = (0, 0), shrink_size = 2, down_sample_method = None\<rparr>,
              patch_grids = []\<rparr>,
            up_sample_filter = None, pad_img = 3\<rparr> False
         [(\<lparr>img_size = (2, 2), img_mode = Mode_RGB, img_history = []\<rparr>,
           \<lparr>img_size = (4, 4), img_mode = Mode_RGB, img_history = []\<rparr>)]
       = Inr (Single (ZeroPad 3
                (Stack [ToTensor \<lparr>img_size = (2, 2), img_mode = Mode_RGB, img_history = []\<rparr>])),
              Stack [ToTensor \<lparr>img_size = (4, 4), img_mode = Mode_RGB, img_history = []\<rparr>])
   \<and> shape (Stack [ToTensor \<lparr>img_size = (2, 2), img_mode = Mode_RGB, img_history = []\<rparr>])
       = [1, 3, 2, 2]
   \<and> shape (ZeroPad 3 (Stack [ToTensor \<lparr>img_size = (2, 2), img_mode = Mode_RGB, img_history = []\<rparr>]))
       = [1, 3, 8, 8]"
proof -
  let ?lo = "\<lparr>img_size = (2, 2), img_mode = Mode_RGB, img_history = []\<rparr>"
  let ?hi = "\<lparr>img_size = (4, 4), img_mode = Mode_RGB, img_history = []\<rparr>"
  let ?self = "\<lparr>dataset = \<lparr>max_path_per_img = 10, patch_size = 4, color_mod = ''RGB'',
              img_augmenter = \<lparr>noise_level = (0, 0), shrink_size = 2, down_sample_method = None\<rparr>,
              patch_grids = []\<rparr>,
            up_sample_filter = None, pad_img = 0\<rparr>"
  have wf: "img_wf ?lo" by (simp add: img_wf_def)
  have ev0: "batch_collector (?self\<lparr>pad_img := 0\<rparr>) False [(?lo, ?hi)]
      = Inr (Single (Stack [ToTensor ?lo]), Stack [ToTensor ?hi])"
    by code_simp
  have sh0: "shape (Stack [ToTensor ?lo]) = [1, 3, 2, 2]" by simp
  from batch_collector_pad [of 3 "[(?lo, ?hi)]" ?self False] wf ev0
  obtain lrp n c h w
    where evp: "batch_collector (?self\<lparr>pad_img := 3\<rparr>) False [(?lo, ?hi)]
        = Inr (lrp, Stack [ToTensor ?hi])"
      and a: "shape (Stack [ToTensor ?lo]) = [n, c, h, w]"
      and b: "shape (lr_tensor lrp) = [n, c, h + 2 * 3, w + 2 * 3]"
    by auto
  have evp': "batch_collector (?self\<lparr>pad_img := 3\<rparr>) False [(?lo, ?hi)]
      = Inr (Single (ZeroPad 3 (Stack [ToTensor ?lo])), Stack [ToTensor ?hi])"
    by code_simp
  from evp evp' have "lrp = Single (ZeroPad 3 (Stack [ToTensor ?lo]))" by simp
  with a b sh0 have "shape (ZeroPad 3 (Stack [ToTensor ?lo])) = [1, 3, 8, 8]" by simp
  with wf ev0 evp' sh0 show ?thesis by simp
qed



section \<open>Scenarios\<close>

text \<open>
  One 64 x 64 image, patch size 32, cap 10, shrink size 2, noise level 0: the corpus has
  four pairs, each of a 16 x 16 low-resolution and a 32 x 32 high-resolution patch. One
  20 x 20 image with patch size 32: the corpus is empty, and building it is not an error.
\<close>

lemma corpus_of_one_64x64_image:
  "map_sum id (\<lambda>d. map (\<lambda>(lr_img, hr_img). (img_size lr_img, img_size hr_img)) (patch_grids d))
     (ImageData_init [\<lparr>img_size = (64, 64), img_mode = Mode_RGB, img_history = []\<rparr>]
        (\<lambda>n. \<lparr>sample_draws = (\<lambda>k. 0), choice_draws = (\<lambda>k. k), noise_draws = (\<lambda>k. 0)\<rparr>)
        10 32 2 0 None ''RGB'')
   = Inr [((16, 16), (32, 32)), ((16, 16), (32, 32)), ((16, 16), (32, 32)), ((16, 16), (32, 32))]"
  by code_simp

lemma corpus_of_one_20x20_image:
  "map_sum id patch_grids
     (ImageData_init [\<lparr>img_size = (20, 20), img_mode = Mode_RGB, img_history = []\<rparr>]
        (\<lambda>n. \<lparr>sample_draws = (\<lambda>k. 0), choice_draws = (\<lambda>k. k), noise_draws = (\<lambda>k. 0)\<rparr>)
        10 32 2 0 None ''RGB'')
   = Inr []"
  by code_simp

end
